theory Spec2Isabelle
  imports Main "HOL-Library.Word"
begin

unbundle bit_operations_syntax

section \<open>JavaScript values used by the two components\<close>

text \<open>
  A JavaScript string is a sequence of UTF-16 code units. \<open>key.split('')\<close> yields one
  one-unit string per code unit and \<open>c.charCodeAt(0)\<close> reads that unit as a number, so
  a string is modelled as the list of its code units.
\<close>

type_synonym char16 = "16 word"
type_synonym jsstring = "char16 list"

text \<open>An ASCII literal of the source, as a JavaScript string.\<close>

definition js_literal :: "string \<Rightarrow> jsstring" where
  "js_literal s = map of_char s"

text \<open>
  The error that \<open>btoa\<close> and \<open>atob\<close> raise, and the error of a call with more
  arguments than the engine accepts.
\<close>

datatype js_error = InvalidCharacterError | RangeError

text \<open>
  What the components cannot decide themselves: whether the engine refuses a call with
  \<open>n\<close> arguments (a spread of a long array raises RangeError, at a length that differs
  between engines), whether \<open>localStorage.setItem\<close> throws (quota, storage disabled) and
  whether \<open>updateApiKey\<close> of the service module throws.
\<close>

record env =
  spread_raises :: "nat \<Rightarrow> bool"
  setItem_raises :: "jsstring \<Rightarrow> jsstring \<Rightarrow> bool"
  updateApiKey_raises :: "jsstring \<Rightarrow> bool"

text \<open>\<open>c.charCodeAt(0)\<close> on a one-unit string: the unit as a number.\<close>

definition charCodeAt0 :: "char16 \<Rightarrow> int" where
  "charCodeAt0 c = uint c"

text \<open>
  The operator \<open>^\<close>: both operands go through ToInt32, the 32-bit patterns are
  combined bitwise, and the result is read as a signed 32-bit integer.
\<close>

definition js_bitxor :: "int \<Rightarrow> int \<Rightarrow> int" where
  "js_bitxor a b = sint ((word_of_int a :: 32 word) XOR word_of_int b)"

text \<open>\<open>String.fromCharCode(n1, ..., nk)\<close>: every argument goes through ToUint16.\<close>

definition fromCharCode :: "int list \<Rightarrow> jsstring" where
  "fromCharCode ns = map word_of_int ns"

text \<open>
  \<open>String.fromCharCode(...ns)\<close>: the spread passes one argument per element, and the
  engine raises RangeError when it does not accept that many.
\<close>

definition fromCharCode_spread :: "env \<Rightarrow> int list \<Rightarrow> js_error + jsstring" where
  "fromCharCode_spread e ns =
     (if spread_raises e (length ns) then Inl RangeError else Inr (fromCharCode ns))"

section \<open>The platform's Base64 functions\<close>

text \<open>
  \<open>btoa\<close> and \<open>atob\<close> are browser functions (HTML standard, "forgiving-base64
  encode" and "forgiving-base64 decode"); the alphabet and the grouping are those of
  RFC 4648, section 4. Bytes are natural numbers below 256.
\<close>

definition b64_alphabet :: string where
  "b64_alphabet = ''ABCDEFGHIJKLMNOPQRSTUVWXYZabcdefghijklmnopqrstuvwxyz0123456789+/''"

definition b64_char :: "nat \<Rightarrow> char16" where
  "b64_char i = of_char (b64_alphabet ! i)"

definition b64_pad :: char16 where
  "b64_pad = 61"

text \<open>Three bytes become four six-bit values; a rest of one or two bytes is zero-filled.\<close>

fun sextets_of :: "nat list \<Rightarrow> nat list" where
  "sextets_of (a # b # c # rest) =
     [a div 4, (a mod 4) * 16 + b div 16, (b mod 16) * 4 + c div 64, c mod 64] @ sextets_of rest"
| "sextets_of [a, b] = [a div 4, (a mod 4) * 16 + b div 16, (b mod 16) * 4]"
| "sextets_of [a] = [a div 4, (a mod 4) * 16]"
| "sextets_of [] = []"

definition b64_padding :: "nat \<Rightarrow> jsstring" where
  "b64_padding n = replicate ((3 - n mod 3) mod 3) b64_pad"

definition b64_encode :: "nat list \<Rightarrow> jsstring" where
  "b64_encode bs = map b64_char (sextets_of bs) @ b64_padding (length bs)"

text \<open>
  \<open>btoa(data)\<close> throws InvalidCharacterError when \<open>data\<close> holds a code unit above
  U+00FF, and otherwise encodes the units as bytes.
\<close>

definition btoa :: "jsstring \<Rightarrow> js_error + jsstring" where
  "btoa data =
     (if list_all (\<lambda>c. c \<le> 255) data then Inr (b64_encode (map unat data))
      else Inl InvalidCharacterError)"

text \<open>The value of a code unit in the Base64 alphabet.\<close>

definition b64_index :: "char16 \<Rightarrow> nat option" where
  "b64_index c =
     (if 65 \<le> c \<and> c \<le> 90 then Some (unat c - 65)
      else if 97 \<le> c \<and> c \<le> 122 then Some (unat c - 97 + 26)
      else if 48 \<le> c \<and> c \<le> 57 then Some (unat c - 48 + 52)
      else if c = 43 then Some 62
      else if c = 47 then Some 63
      else None)"

fun b64_indices :: "jsstring \<Rightarrow> nat list option" where
  "b64_indices [] = Some []"
| "b64_indices (c # cs) =
     (case b64_index c of
        None \<Rightarrow> None
      | Some v \<Rightarrow> (case b64_indices cs of None \<Rightarrow> None | Some vs \<Rightarrow> Some (v # vs)))"

text \<open>
  Four six-bit values give three bytes. A rest of two values gives one byte (the last four
  bits are discarded), a rest of three gives two bytes (the last two bits are discarded).
\<close>

fun bytes_of_sextets :: "nat list \<Rightarrow> nat list" where
  "bytes_of_sextets (s1 # s2 # s3 # s4 # rest) =
     [s1 * 4 + s2 div 16, (s2 mod 16) * 16 + s3 div 4, (s3 mod 4) * 64 + s4]
       @ bytes_of_sextets rest"
| "bytes_of_sextets [s1, s2, s3] = [s1 * 4 + s2 div 16, (s2 mod 16) * 16 + s3 div 4]"
| "bytes_of_sextets [s1, s2] = [s1 * 4 + s2 div 16]"
| "bytes_of_sextets [s1] = []"
| "bytes_of_sextets [] = []"

definition is_ascii_whitespace :: "char16 \<Rightarrow> bool" where
  "is_ascii_whitespace c \<longleftrightarrow> c = 9 \<or> c = 10 \<or> c = 12 \<or> c = 13 \<or> c = 32"

text \<open>"If data ends with one or two U+003D (=) code points, then remove them."\<close>

definition strip_padding :: "jsstring \<Rightarrow> jsstring" where
  "strip_padding d =
     (if d \<noteq> [] \<and> last d = b64_pad
      then (let d' = butlast d in if d' \<noteq> [] \<and> last d' = b64_pad then butlast d' else d')
      else d)"

definition forgiving_base64_decode :: "jsstring \<Rightarrow> nat list option" where
  "forgiving_base64_decode data =
     (let d1 = filter (\<lambda>c. \<not> is_ascii_whitespace c) data;
          d2 = (if length d1 mod 4 = 0 then strip_padding d1 else d1)
      in if length d2 mod 4 = 1 then None
         else (case b64_indices d2 of
                 None \<Rightarrow> None
               | Some vs \<Rightarrow> Some (bytes_of_sextets vs)))"

text \<open>\<open>atob(data)\<close> throws InvalidCharacterError when the decoding fails.\<close>

definition atob :: "jsstring \<Rightarrow> js_error + jsstring" where
  "atob data =
     (case forgiving_base64_decode data of
        None \<Rightarrow> Inl InvalidCharacterError
      | Some bs \<Rightarrow> Inr (map of_nat bs))"

section \<open>The credential transform (ApiKeySettings.tsx)\<close>

definition STORAGE_KEY :: jsstring where
  "STORAGE_KEY = js_literal ''gh_smart_saenggibu_key_enc''"

definition SALT :: jsstring where
  "SALT = js_literal ''GH_SMART_SECRET_SALT_2025''"

text \<open>The callback of both \<open>map\<close> calls: the unit at index \<open>i\<close> against the salt.\<close>

definition xor_salt :: "nat \<Rightarrow> char16 \<Rightarrow> int" where
  "xor_salt i c = js_bitxor (charCodeAt0 c) (charCodeAt0 (SALT ! (i mod length SALT)))"

text \<open>
  The keystream on code units: the unit at index \<open>n + j\<close> of the salt cycle is combined
  with the \<open>j\<close>-th unit of the string. It is used to state what both maps compute.
\<close>

definition xor_stream :: "nat \<Rightarrow> jsstring \<Rightarrow> jsstring" where
  "xor_stream n s = map (\<lambda>(i, c). c XOR SALT ! (i mod length SALT)) (enumerate n s)"

text \<open>
  \<open>encryptKey\<close>: the whole body is inside \<open>try\<close>; the handler logs to the console and
  returns the empty string. Two calls of the body can throw: the spread call
  \<open>String.fromCharCode(...encrypted)\<close> and \<open>btoa\<close>.
\<close>

definition encryptKey :: "env \<Rightarrow> jsstring \<Rightarrow> jsstring" where
  "encryptKey e key =
     (let encrypted = map (\<lambda>(i, c). xor_salt i c) (enumerate 0 key)
      in case fromCharCode_spread e encrypted of
           Inl err \<Rightarrow> []
         | Inr units \<Rightarrow>
             (case btoa units of
                Inl err \<Rightarrow> []
              | Inr r \<Rightarrow> r))"

text \<open>
  \<open>decryptKey\<close>: the same shape, with \<open>atob\<close> first and \<open>join('')\<close> last; it has no
  spread call, \<open>String.fromCharCode\<close> gets one argument at a time.
\<close>

definition decryptKey :: "jsstring \<Rightarrow> jsstring" where
  "decryptKey encrypted =
     (case atob encrypted of
        Inl e \<Rightarrow> []
      | Inr decoded \<Rightarrow>
          concat (map (\<lambda>(i, c). fromCharCode [xor_salt i c]) (enumerate 0 decoded)))"

section \<open>The stored record and the dialog (ApiKeySettings.tsx)\<close>

text \<open>
  \<open>localStorage\<close> maps keys to strings; \<open>getItem\<close> returns \<open>null\<close> (here \<open>None\<close>) for
  a key that is not stored.
\<close>

type_synonym storage = "jsstring \<rightharpoonup> jsstring"

text \<open>
  \<open>loadSavedApiKey\<close>: \<open>if (saved)\<close> is false for \<open>null\<close> and for the empty string.
\<close>

definition loadSavedApiKey :: "storage \<Rightarrow> jsstring" where
  "loadSavedApiKey st =
     (case st STORAGE_KEY of
        None \<Rightarrow> []
      | Some saved \<Rightarrow> (if saved \<noteq> [] then decryptKey saved else []))"

text \<open>
  \<open>String.prototype.trim\<close> removes leading and trailing WhiteSpace and LineTerminator
  code units (ECMAScript): TAB, LF, VT, FF, CR, SP, NBSP, U+1680, U+2000 to U+200A,
  U+2028, U+2029, U+202F, U+205F, U+3000 and U+FEFF.
\<close>

definition is_js_whitespace :: "char16 \<Rightarrow> bool" where
  "is_js_whitespace c \<longleftrightarrow>
     c = 9 \<or> c = 10 \<or> c = 11 \<or> c = 12 \<or> c = 13 \<or> c = 32 \<or> c = 160 \<or> c = 5760 \<or>
     (8192 \<le> c \<and> c \<le> 8202) \<or> c = 8232 \<or> c = 8233 \<or> c = 8239 \<or> c = 8287 \<or>
     c = 12288 \<or> c = 65279"

definition trim :: "jsstring \<Rightarrow> jsstring" where
  "trim s = rev (dropWhile is_js_whitespace (rev (dropWhile is_js_whitespace s)))"

datatype status = Idle | Testing | Success | Error

text \<open>
  The messages of the dialog are fixed Korean literals; each constructor stands for one of
  them, in the order of the source: the empty message, "please enter the API key",
  "testing the connection...", "connection succeeded!", "connection failed, check the API
  key", "there is no API key to save", "encrypted and stored safely", "an error occurred
  while saving".
\<close>

datatype message =
    NoMessage | EnterApiKey | TestingConnection | ConnectionSucceeded | ConnectionFailed
  | NothingToSave | SavedEncrypted | SaveFailed

text \<open>Calls that leave the component, in the order they are made.\<close>

datatype call =
    TestConnection jsstring
  | SetItem jsstring jsstring
  | UpdateApiKey jsstring
  | OnClose

text \<open>The callback handed to \<open>setTimeout\<close> in \<open>handleSave\<close>: \<open>() => onClose()\<close>.\<close>

datatype callback = InvokeOnClose

text \<open>
  The state hooks of the component, the browser storage, the timers pending after
  \<open>setTimeout\<close> (delay in milliseconds and callback) and the calls made so far.
\<close>

record dialog =
  apiKey :: jsstring
  status :: status
  message :: message
  showKey :: bool
  storage :: storage
  timers :: "(nat \<times> callback) list"
  calls :: "call list"

definition dialog_init :: "storage \<Rightarrow> dialog" where
  "dialog_init st =
     \<lparr>apiKey = [], status = Idle, message = NoMessage, showKey = False,
      storage = st, timers = [], calls = []\<rparr>"

text \<open>The effect run on mount.\<close>

definition mount :: "dialog \<Rightarrow> dialog" where
  "mount d =
     (let savedKey = loadSavedApiKey (storage d)
      in if savedKey \<noteq> [] then d\<lparr>apiKey := savedKey\<rparr> else d)"

text \<open>The \<open>onChange\<close> handler of the input field.\<close>

definition input_onChange :: "jsstring \<Rightarrow> dialog \<Rightarrow> dialog" where
  "input_onChange v d = d\<lparr>apiKey := v, status := Idle, message := NoMessage\<rparr>"

text \<open>
  \<open>handleTest\<close> is asynchronous. Its first part runs to the \<open>await\<close> (or returns at the
  guard); its second part runs when the promise of \<open>testConnection\<close> settles. A rejected
  promise makes the \<open>await\<close> throw, and the rest of the body is skipped.
\<close>

datatype test_run = Returned dialog | Awaiting dialog

datatype settled = Resolved bool | Rejected

definition handleTest_start :: "dialog \<Rightarrow> test_run" where
  "handleTest_start d =
     (if trim (apiKey d) = []
      then Returned (d\<lparr>status := Error, message := EnterApiKey\<rparr>)
      else Awaiting (d\<lparr>status := Testing, message := TestingConnection,
                       calls := calls d @ [TestConnection (apiKey d)]\<rparr>))"

definition handleTest_resume :: "settled \<Rightarrow> dialog \<Rightarrow> dialog" where
  "handleTest_resume r d =
     (case r of
        Resolved isConnected \<Rightarrow>
          (if isConnected then d\<lparr>status := Success, message := ConnectionSucceeded\<rparr>
           else d\<lparr>status := Error, message := ConnectionFailed\<rparr>)
      | Rejected \<Rightarrow> d)"

text \<open>The whole handler against a verifier whose promise settles before any other event.\<close>

definition handleTest :: "(jsstring \<Rightarrow> settled) \<Rightarrow> dialog \<Rightarrow> dialog" where
  "handleTest verifier d =
     (case handleTest_start d of
        Returned d' \<Rightarrow> d'
      | Awaiting d' \<Rightarrow> handleTest_resume (verifier (apiKey d)) d')"

text \<open>
  \<open>handleSave\<close>: the guard, then the \<open>try\<close> block, left for the \<open>catch\<close> branch at the
  first call that throws.
\<close>

definition handleSave :: "env \<Rightarrow> dialog \<Rightarrow> dialog" where
  "handleSave e d =
     (if trim (apiKey d) = []
      then d\<lparr>status := Error, message := NothingToSave\<rparr>
      else
        (let encrypted = encryptKey e (apiKey d);
             d1 = d\<lparr>calls := calls d @ [SetItem STORAGE_KEY encrypted]\<rparr>
         in if setItem_raises e STORAGE_KEY encrypted
            then d1\<lparr>status := Error, message := SaveFailed\<rparr>
            else
              (let d2 = d1\<lparr>storage := (storage d1)(STORAGE_KEY \<mapsto> encrypted),
                            calls := calls d1 @ [UpdateApiKey (apiKey d)]\<rparr>
               in if updateApiKey_raises e (apiKey d)
                  then d2\<lparr>status := Error, message := SaveFailed\<rparr>
                  else d2\<lparr>status := Success, message := SavedEncrypted,
                          timers := timers d2 @ [(1500, InvokeOnClose)]\<rparr>)))"

text \<open>The browser runs the pending timer at position \<open>i\<close>: it leaves the list and its
  callback is called.\<close>

definition run_callback :: "callback \<Rightarrow> dialog \<Rightarrow> dialog" where
  "run_callback cb d = (case cb of InvokeOnClose \<Rightarrow> d\<lparr>calls := calls d @ [OnClose]\<rparr>)"

definition fire_timer :: "nat \<Rightarrow> dialog \<Rightarrow> dialog" where
  "fire_timer i d =
     (if i < length (timers d)
      then run_callback (snd (timers d ! i)) (d\<lparr>timers := take i (timers d) @ drop (Suc i) (timers d)\<rparr>)
      else d)"

text \<open>
  The handlers as the user and the browser trigger them. Both buttons carry
  \<open>disabled={status === 'testing' || !apiKey}\<close>; the close button calls \<open>onClose\<close>; the
  eye button toggles \<open>showKey\<close>; a promise of \<open>testConnection\<close> may settle and a pending
  timer may run at any step.
\<close>

definition buttons_disabled :: "dialog \<Rightarrow> bool" where
  "buttons_disabled d \<longleftrightarrow> status d = Testing \<or> apiKey d = []"

datatype dialog_event =
    TypeInput jsstring
  | ClickTest
  | TestSettled settled
  | ClickSave
  | TimerFired nat
  | ClickClose
  | ToggleShowKey

fun dialog_step :: "env \<Rightarrow> dialog \<Rightarrow> dialog_event \<Rightarrow> dialog" where
  "dialog_step e d (TypeInput v) = input_onChange v d"
| "dialog_step e d ClickTest =
     (if buttons_disabled d then d
      else (case handleTest_start d of Returned d' \<Rightarrow> d' | Awaiting d' \<Rightarrow> d'))"
| "dialog_step e d (TestSettled r) = handleTest_resume r d"
| "dialog_step e d ClickSave = (if buttons_disabled d then d else handleSave e d)"
| "dialog_step e d (TimerFired i) = fire_timer i d"
| "dialog_step e d ClickClose = d\<lparr>calls := calls d @ [OnClose]\<rparr>"
| "dialog_step e d ToggleShowKey = d\<lparr>showKey := \<not> showKey d\<rparr>"

fun dialog_run :: "env \<Rightarrow> dialog \<Rightarrow> dialog_event list \<Rightarrow> dialog" where
  "dialog_run e d [] = d"
| "dialog_run e d (ev # evs) = dialog_run e (dialog_step e d ev) evs"

text \<open>
  The credential that a step saves, if it saves one: a click on the enabled Save button
  that passes the guard and whose \<open>setItem\<close> returns. The credential most recently saved
  in a run is the one of the last such step.
\<close>

fun saved_by :: "env \<Rightarrow> dialog \<Rightarrow> dialog_event \<Rightarrow> jsstring option" where
  "saved_by e d ClickSave =
     (if buttons_disabled d \<or> trim (apiKey d) = [] \<or>
         setItem_raises e STORAGE_KEY (encryptKey e (apiKey d))
      then None else Some (apiKey d))"
| "saved_by e d ev = None"

fun last_saved :: "env \<Rightarrow> dialog \<Rightarrow> dialog_event list \<Rightarrow> jsstring option" where
  "last_saved e d [] = None"
| "last_saved e d (ev # evs) =
     (case last_saved e (dialog_step e d ev) evs of
        Some p \<Rightarrow> Some p
      | None \<Rightarrow> saved_by e d ev)"

section \<open>The row-count field (Toolbar.tsx)\<close>











section \<open>Concrete situations\<close>

text \<open>
  An environment in which neither \<open>localStorage.setItem\<close> nor \<open>updateApiKey\<close> throws and
  the engine accepts up to 65536 arguments in one call, a browser with nothing stored, the
  dialog opened there with \<open>k\<close> typed into the field, and a storage that holds \<open>r\<close> as
  the record.
\<close>

definition quiet_env :: env where
  "quiet_env =
     \<lparr>spread_raises = (\<lambda>n. 65536 < n), setItem_raises = (\<lambda>k v. False),
      updateApiKey_raises = (\<lambda>k. False)\<rparr>"

definition no_record :: storage where
  "no_record = Map.empty"

definition record_of :: "jsstring \<Rightarrow> storage" where
  "record_of r = no_record(STORAGE_KEY \<mapsto> r)"

definition typed :: "jsstring \<Rightarrow> dialog" where
  "typed k = input_onChange k (mount (dialog_init no_record))"

text \<open>Mocked verifiers: one whose promise resolves to \<open>true\<close>, one to \<open>false\<close>.\<close>

definition accepting_verifier :: "jsstring \<Rightarrow> settled" where
  "accepting_verifier k = Resolved True"

definition refusing_verifier :: "jsstring \<Rightarrow> settled" where
  "refusing_verifier k = Resolved False"

section \<open>Base64: decoding an encoding\<close>

text \<open>Arithmetic of the six-bit groups, for bytes below 256.\<close>

lemma div_pack: "(y::nat) < n \<Longrightarrow> (x * n + y) div n = x" by simp
lemma mod_pack: "(y::nat) < n \<Longrightarrow> (x * n + y) mod n = y" by simp
lemma lin_hi: "(x::nat) < 4 \<Longrightarrow> y < 16 \<Longrightarrow> x * 16 + y < 64" by linarith
lemma lin_lo: "(x::nat) < 16 \<Longrightarrow> y < 4 \<Longrightarrow> x * 4 + y < 64" by linarith
lemma byte_div4: "(a::nat) < 256 \<Longrightarrow> a div 4 < 64" by (simp add: less_mult_imp_div_less)
lemma byte_div16: "(b::nat) < 256 \<Longrightarrow> b div 16 < 16" by (simp add: less_mult_imp_div_less)
lemma byte_div64: "(c::nat) < 256 \<Longrightarrow> c div 64 < 4" by (simp add: less_mult_imp_div_less)

lemma sextet2_lt: "(b::nat) < 256 \<Longrightarrow> a mod 4 * 16 + b div 16 < 64"
  by (rule lin_hi) (simp_all add: byte_div16)
lemma sextet3_lt: "(c::nat) < 256 \<Longrightarrow> b mod 16 * 4 + c div 64 < 64"
  by (rule lin_lo) (simp_all add: byte_div64)
lemma sextet2_rest_lt: "(a::nat) mod 4 * 16 < 64"
  using lin_hi [of "a mod 4" 0] by simp
lemma sextet3_rest_lt: "(b::nat) mod 16 * 4 < 64"
  using lin_lo [of "b mod 16" 0] by simp

lemma byte1_eq: "(b::nat) < 256 \<Longrightarrow> a div 4 * 4 + (a mod 4 * 16 + b div 16) div 16 = a"
  by (simp add: div_pack byte_div16)
lemma byte2_eq:
  "(b::nat) < 256 \<Longrightarrow> c < 256 \<Longrightarrow>
   (a mod 4 * 16 + b div 16) mod 16 * 16 + (b mod 16 * 4 + c div 64) div 4 = b"
  by (simp add: div_pack mod_pack byte_div16 byte_div64)
lemma byte3_eq: "(c::nat) < 256 \<Longrightarrow> (b mod 16 * 4 + c div 64) mod 4 * 64 + c mod 64 = c"
  by (simp add: mod_pack byte_div64)
lemma byte2_rest_eq:
  "(b::nat) < 256 \<Longrightarrow> (a mod 4 * 16 + b div 16) mod 16 * 16 + (b mod 16 * 4) div 4 = b"
  by (simp add: mod_pack byte_div16)
lemma byte1_rest_eq: "(a::nat) div 4 * 4 + (a mod 4 * 16) div 16 = a"
  by simp

lemma sextets_of_lt_64: "\<forall>b\<in>set bs. b < 256 \<Longrightarrow> \<forall>v\<in>set (sextets_of bs). v < 64"
proof (induction bs rule: sextets_of.induct)
  case (1 a b c rest)
  then show ?case by (simp add: byte_div4 sextet2_lt sextet3_lt)
next
  case (2 a b)
  then show ?case by (simp add: byte_div4 sextet2_lt sextet3_rest_lt)
next
  case (3 a)
  then show ?case by (simp add: byte_div4 sextet2_rest_lt)
qed simp

lemma bytes_of_sextets_of: "\<forall>b\<in>set bs. b < 256 \<Longrightarrow> bytes_of_sextets (sextets_of bs) = bs"
proof (induction bs rule: sextets_of.induct)
  case (1 a b c rest)
  have b: "b < 256" and c: "c < 256" and r: "\<forall>x\<in>set rest. x < 256"
    using "1.prems" by simp_all
  have "bytes_of_sextets (sextets_of (a # b # c # rest)) =
          [a div 4 * 4 + (a mod 4 * 16 + b div 16) div 16,
           (a mod 4 * 16 + b div 16) mod 16 * 16 + (b mod 16 * 4 + c div 64) div 4,
           (b mod 16 * 4 + c div 64) mod 4 * 64 + c mod 64] @ bytes_of_sextets (sextets_of rest)"
    by (simp only: sextets_of.simps bytes_of_sextets.simps append.simps)
  also have "\<dots> = [a, b, c] @ rest"
    by (simp only: byte1_eq [OF b] byte2_eq [OF b c] byte3_eq [OF c] "1.IH" [OF r])
  finally show ?case by simp
next
  case (2 a b)
  have b: "b < 256" using "2.prems" by simp
  have "bytes_of_sextets (sextets_of [a, b]) =
          [a div 4 * 4 + (a mod 4 * 16 + b div 16) div 16,
           (a mod 4 * 16 + b div 16) mod 16 * 16 + (b mod 16 * 4) div 4]"
    by (simp only: sextets_of.simps bytes_of_sextets.simps)
  also have "\<dots> = [a, b]"
    by (simp only: byte1_eq [OF b] byte2_rest_eq [OF b])
  finally show ?case .
next
  case (3 a)
  have "bytes_of_sextets (sextets_of [a]) = [a div 4 * 4 + (a mod 4 * 16) div 16]"
    by (simp only: sextets_of.simps bytes_of_sextets.simps)
  also have "\<dots> = [a]" by (simp only: byte1_rest_eq)
  finally show ?case .
qed simp

lemma length_sextets_of:
  "length (sextets_of bs) mod 4 = (case length bs mod 3 of 0 \<Rightarrow> 0 | Suc 0 \<Rightarrow> 2 | _ \<Rightarrow> 3)"
proof (induction bs rule: sextets_of.induct)
  case (1 a b c rest)
  have "length (a # b # c # rest) mod 3 = length rest mod 3" by simp
  moreover have "length (sextets_of (a # b # c # rest)) mod 4 = length (sextets_of rest) mod 4"
    by simp
  ultimately show ?case using 1 by simp
qed simp_all

text \<open>The alphabet, the padding and the white-space filter on an encoding.\<close>

lemma b64_char_vals:
  "i < 64 \<Longrightarrow>
   b64_index (b64_char i) = Some i \<and> \<not> is_ascii_whitespace (b64_char i) \<and> b64_char i \<noteq> b64_pad"
  apply (simp add: numeral_eq_Suc less_Suc_eq)
  apply (elim disjE)
  apply (simp_all add: b64_char_def b64_alphabet_def b64_index_def is_ascii_whitespace_def b64_pad_def)
  done

lemma b64_indices_map: "\<forall>v\<in>set vs. v < 64 \<Longrightarrow> b64_indices (map b64_char vs) = Some vs"
  by (induction vs) (simp_all add: b64_char_vals)

lemma filter_ws_map:
  "\<forall>v\<in>set vs. v < 64 \<Longrightarrow>
   filter (\<lambda>c. \<not> is_ascii_whitespace c) (map b64_char vs) = map b64_char vs"
  by (induction vs) (simp_all add: b64_char_vals)

lemma strip_padding_append:
  assumes "k \<le> 2" "xs = [] \<or> last xs \<noteq> b64_pad"
  shows "strip_padding (xs @ replicate k b64_pad) = xs"
proof -
  from assms(1) consider "k = 0" | "k = 1" | "k = 2" by linarith
  then show ?thesis
  proof cases
    case 1 then show ?thesis using assms(2) by (auto simp: strip_padding_def)
  next
    case 2 then show ?thesis using assms(2) by (auto simp: strip_padding_def)
  next
    case 3
    have "replicate k b64_pad = [b64_pad, b64_pad]" using 3 by (simp add: numeral_2_eq_2)
    then show ?thesis using assms(2) by (auto simp: strip_padding_def butlast_append)
  qed
qed

lemma mod3_cases: "(n::nat) mod 3 = 0 \<or> n mod 3 = 1 \<or> n mod 3 = 2"
  by linarith

lemma b64_padding_cases:
  "b64_padding n = replicate (case n mod 3 of 0 \<Rightarrow> 0 | Suc 0 \<Rightarrow> 2 | _ \<Rightarrow> 1) b64_pad"
  using mod3_cases [of n] by (auto simp: b64_padding_def)

lemma forgiving_base64_decode_encode:
  assumes "\<forall>b\<in>set bs. b < 256"
  shows "forgiving_base64_decode (b64_encode bs) = Some bs"
proof -
  let ?vs = "sextets_of bs"
  let ?xs = "map b64_char ?vs"
  let ?k = "(case length bs mod 3 of 0 \<Rightarrow> 0 | Suc 0 \<Rightarrow> 2 | _ \<Rightarrow> 1) :: nat"
  have lt: "\<forall>v\<in>set ?vs. v < 64" using assms by (rule sextets_of_lt_64)
  have enc: "b64_encode bs = ?xs @ replicate ?k b64_pad"
    by (simp add: b64_encode_def b64_padding_cases)
  note m3 = mod3_cases [of "length bs"]
  have k2: "?k \<le> 2" using m3 by auto
  have nows: "filter (\<lambda>c. \<not> is_ascii_whitespace c) (b64_encode bs) = b64_encode bs"
  proof -
    have "\<not> is_ascii_whitespace b64_pad" by (simp add: is_ascii_whitespace_def b64_pad_def)
    then show ?thesis by (simp add: enc filter_ws_map [OF lt])
  qed
  have len0: "length (b64_encode bs) mod 4 = 0"
  proof -
    have "length (b64_encode bs) = length ?vs + ?k" by (simp add: enc)
    moreover have "(length ?vs + ?k) mod 4 = (length ?vs mod 4 + ?k) mod 4" by presburger
    ultimately show ?thesis using m3 by (auto simp: length_sextets_of)
  qed
  have lastx: "?xs = [] \<or> last ?xs \<noteq> b64_pad"
  proof (cases "?vs = []")
    case False
    then have "last ?vs \<in> set ?vs" by simp
    then have "last ?vs < 64" using lt by blast
    then show ?thesis using False by (simp add: last_map b64_char_vals)
  qed simp
  have strip: "strip_padding (b64_encode bs) = ?xs"
    unfolding enc using k2 lastx by (rule strip_padding_append)
  have len1: "length ?xs mod 4 \<noteq> 1"
    using m3 by (auto simp: length_sextets_of)
  have d2: "(if length (b64_encode bs) mod 4 = 0 then strip_padding (b64_encode bs)
             else b64_encode bs) = ?xs"
    using len0 strip by simp
  have "forgiving_base64_decode (b64_encode bs) =
          (case b64_indices ?xs of None \<Rightarrow> None | Some vs \<Rightarrow> Some (bytes_of_sextets vs))"
    unfolding forgiving_base64_decode_def nows Let_def d2 using len1 by simp
  also have "\<dots> = Some bs"
    by (simp only: b64_indices_map [OF lt] bytes_of_sextets_of [OF assms] option.case)
  finally show ?thesis .
qed

lemma atob_btoa:
  assumes "list_all (\<lambda>c. c \<le> 255) s"
  shows "btoa s = Inr (b64_encode (map unat s)) \<and> atob (b64_encode (map unat s)) = Inr s"
proof -
  have "\<forall>b\<in>set (map unat s). b < 256"
    using assms by (auto simp: list_all_iff word_le_nat_alt)
  then have "forgiving_base64_decode (b64_encode (map unat s)) = Some (map unat s)"
    by (rule forgiving_base64_decode_encode)
  then show ?thesis using assms by (simp add: btoa_def atob_def comp_def)
qed

lemma b64_encode_eq_Nil: "b64_encode bs = [] \<longleftrightarrow> bs = []"
  by (cases bs rule: sextets_of.cases) (simp_all add: b64_encode_def b64_padding_def)

section \<open>The credential transform: keystream and round trip\<close>

lemma word16_of_js_bitxor:
  "(word_of_int (js_bitxor (uint (c::char16)) (uint (s::char16))) :: char16) = c XOR s"
  unfolding js_bitxor_def
  by (rule bit_word_eqI) (auto simp: bit_simps)

lemma le_255_iff_mask: "(x::char16) \<le> 255 \<longleftrightarrow> x AND mask 8 = x"
proof -
  have "x \<le> 255 \<longleftrightarrow> x < 2 ^ 8"
    by (simp add: word_le_nat_alt word_less_nat_alt) linarith
  also have "\<dots> \<longleftrightarrow> x AND mask 8 = x"
    by (rule mask_eq_iff_w2p [symmetric]) (simp add: word_size)
  finally show ?thesis .
qed

lemma xor_le_255: "(c::char16) \<le> 255 \<Longrightarrow> s \<le> 255 \<Longrightarrow> c XOR s \<le> 255"
  by (simp add: le_255_iff_mask bit.conj_xor_distrib2)

lemma xor_le_255_iff:
  assumes "(s::char16) \<le> 255"
  shows "c XOR s \<le> 255 \<longleftrightarrow> c \<le> 255"
proof
  assume "c XOR s \<le> 255"
  then have "(c XOR s) XOR s \<le> 255" using assms by (rule xor_le_255)
  then show "c \<le> 255" by (simp add: xor.assoc)
next
  assume "c \<le> 255"
  then show "c XOR s \<le> 255" using assms by (rule xor_le_255)
qed

lemma length_SALT: "length SALT = 25"
  by (simp add: SALT_def js_literal_def)

lemma SALT_bytes: "\<forall>x\<in>set SALT. x \<le> 255"
  by (simp add: SALT_def js_literal_def)

lemma SALT_nth_le_255: "SALT ! (i mod length SALT) \<le> 255"
proof -
  have "i mod length SALT < length SALT" by (simp add: length_SALT)
  then have "SALT ! (i mod length SALT) \<in> set SALT" by (rule nth_mem)
  then show ?thesis using SALT_bytes by blast
qed

lemma xor_stream_Nil: "xor_stream n [] = []"
  by (simp add: xor_stream_def)

lemma xor_stream_Cons:
  "xor_stream n (c # cs) = (c XOR SALT ! (n mod length SALT)) # xor_stream (Suc n) cs"
  by (simp add: xor_stream_def)

lemma xor_stream_involution: "xor_stream n (xor_stream n s) = s"
  by (induction s arbitrary: n) (simp_all add: xor_stream_Nil xor_stream_Cons xor.assoc)

lemma xor_stream_bytes:
  "list_all (\<lambda>c. c \<le> 255) (xor_stream n s) \<longleftrightarrow> list_all (\<lambda>c. c \<le> 255) s"
  by (induction s arbitrary: n)
     (simp_all add: xor_stream_Nil xor_stream_Cons xor_le_255_iff [OF SALT_nth_le_255])

lemma length_xor_stream: "length (xor_stream n s) = length s"
  by (simp add: xor_stream_def)

lemma fromCharCode_xor_salt:
  "fromCharCode (map (\<lambda>(i, c). xor_salt i c) (enumerate n s)) = xor_stream n s"
  by (simp add: fromCharCode_def xor_stream_def xor_salt_def charCodeAt0_def
                word16_of_js_bitxor split_def)

lemma join_fromCharCode_xor_salt:
  "concat (map (\<lambda>(i, c). fromCharCode [xor_salt i c]) (enumerate n s)) = xor_stream n s"
  by (induction s arbitrary: n)
     (simp_all add: xor_stream_Nil xor_stream_Cons fromCharCode_def xor_salt_def charCodeAt0_def
                    word16_of_js_bitxor)

lemma quiet_env_simps:
  "\<not> setItem_raises quiet_env k v" "\<not> updateApiKey_raises quiet_env k"
  "spread_raises quiet_env n \<longleftrightarrow> 65536 < n"
  by (simp_all add: quiet_env_def)

lemma encryptKey_eq:
  "encryptKey e key =
     (if spread_raises e (length key) then []
      else (case btoa (xor_stream 0 key) of Inl err \<Rightarrow> [] | Inr r \<Rightarrow> r))"
  by (simp add: encryptKey_def fromCharCode_spread_def fromCharCode_xor_salt)

lemma decryptKey_eq:
  "decryptKey encrypted =
     (case atob encrypted of Inl e \<Rightarrow> [] | Inr decoded \<Rightarrow> xor_stream 0 decoded)"
  by (simp add: decryptKey_def join_fromCharCode_xor_salt split: sum.splits)

lemma encryptKey_spread_raises: "spread_raises e (length key) \<Longrightarrow> encryptKey e key = []"
  by (simp add: encryptKey_eq)

lemma encryptKey_bytes:
  assumes "list_all (\<lambda>c. c \<le> 255) key" and "\<not> spread_raises e (length key)"
  shows "encryptKey e key = b64_encode (map unat (xor_stream 0 key))"
    and "atob (encryptKey e key) = Inr (xor_stream 0 key)"
proof -
  have b: "list_all (\<lambda>c. c \<le> 255) (xor_stream 0 key)"
    using assms(1) by (simp add: xor_stream_bytes)
  show enc: "encryptKey e key = b64_encode (map unat (xor_stream 0 key))"
    using atob_btoa [OF b] assms(2) by (simp add: encryptKey_eq)
  show "atob (encryptKey e key) = Inr (xor_stream 0 key)"
    using atob_btoa [OF b] by (simp add: enc)
qed

lemma encryptKey_not_bytes:
  assumes "\<not> list_all (\<lambda>c. c \<le> 255) key"
  shows "encryptKey e key = []"
proof -
  have "\<not> list_all (\<lambda>c. c \<le> 255) (xor_stream 0 key)"
    using assms by (simp add: xor_stream_bytes)
  then show ?thesis by (simp add: encryptKey_eq btoa_def)
qed

lemma decryptKey_Nil: "decryptKey [] = []"
  by (simp add: decryptKey_eq atob_def forgiving_base64_decode_def strip_padding_def xor_stream_Nil)

lemma decrypt_encrypt_bytes:
  assumes "list_all (\<lambda>c. c \<le> 255) s" and "\<not> spread_raises e (length s)"
  shows "decryptKey (encryptKey e s) = s"
proof -
  have "decryptKey (encryptKey e s) = xor_stream 0 (xor_stream 0 s)"
    by (simp add: decryptKey_eq encryptKey_bytes(2) [OF assms])
  then show ?thesis by (simp add: xor_stream_involution)
qed

text \<open>
  C1 as stated fails: a key of 200000 units \<open>A\<close> (code 65) lies in the byte range, and so
  does its XOR with the salt, but in an engine that accepts at most 65536 arguments the
  spread call \<open>String.fromCharCode(...encrypted)\<close> raises RangeError, the \<open>catch\<close> of
  \<open>encryptKey\<close> returns the empty string, and decrypting that gives the empty string, not
  the key.
\<close>

theorem roundtrip_long_key_counterexample:
  "(65 :: char16) \<le> 255 \<and>
   length (replicate 200000 (65 :: char16)) = 200000 \<and>
   spread_raises quiet_env 200000 \<and>
   encryptKey quiet_env (replicate 200000 65) = [] \<and>
   decryptKey (encryptKey quiet_env (replicate 200000 65)) = [] \<and>
   decryptKey (encryptKey quiet_env (replicate 200000 65)) \<noteq> replicate 200000 65"
proof -
  have r: "spread_raises quiet_env (length (replicate 200000 (65 :: char16)))"
    by (simp add: quiet_env_simps)
  have enc: "encryptKey quiet_env (replicate 200000 65) = []"
    using r by (rule encryptKey_spread_raises)
  have ne: "replicate 200000 (65 :: char16) \<noteq> []" by simp
  show ?thesis using ne by (simp add: enc decryptKey_Nil quiet_env_simps)
qed

text \<open>
  C1, amended. Round trip of the obfuscation transform: for every string whose code units
  lie in the byte range (0 to 255) and whose length the engine accepts as the number of
  arguments of one call, \<open>decryptKey (encryptKey s) = s\<close>. The XOR with a unit of the salt
  keeps a byte a byte, so the condition on the units of the string alone suffices;
  \<open>encryptKey\<close> is the unit-wise XOR with the salt at position \<open>i mod length SALT\<close> followed
  by Base64, and \<open>decryptKey\<close> undoes Base64 and applies the same keystream.
\<close>

theorem decryptKey_encryptKey_roundtrip:
  assumes "list_all (\<lambda>c. c \<le> 255) s" and "\<not> spread_raises e (length s)"
  shows "decryptKey (encryptKey e s) = s \<and>
         encryptKey e s = b64_encode (map unat (xor_stream 0 s)) \<and>
         atob (encryptKey e s) = Inr (xor_stream 0 s)"
proof (intro conjI)
  show "decryptKey (encryptKey e s) = s" using assms by (rule decrypt_encrypt_bytes)
  show "encryptKey e s = b64_encode (map unat (xor_stream 0 s))"
    using assms by (rule encryptKey_bytes(1))
  show "atob (encryptKey e s) = Inr (xor_stream 0 s)" using assms by (rule encryptKey_bytes(2))
qed

theorem decryptKey_encryptKey_roundtrip_witness:
  "list_all (\<lambda>c. c \<le> 255) (js_literal ''AIzaSy-k3y'') \<and>
   \<not> spread_raises quiet_env (length (js_literal ''AIzaSy-k3y'')) \<and>
   decryptKey (encryptKey quiet_env (js_literal ''AIzaSy-k3y'')) = js_literal ''AIzaSy-k3y''"
proof -
  have h: "list_all (\<lambda>c. c \<le> 255) (js_literal ''AIzaSy-k3y'')"
    by (simp add: js_literal_def)
  have l: "\<not> spread_raises quiet_env (length (js_literal ''AIzaSy-k3y''))"
    by (simp add: js_literal_def quiet_env_simps)
  show ?thesis using h l decryptKey_encryptKey_roundtrip [OF h l] by blast
qed

section \<open>Failure of the transform, and the loader\<close>

lemma b64_indices_None: "c \<in> set d \<Longrightarrow> b64_index c = None \<Longrightarrow> b64_indices d = None"
  by (induction d) (auto split: option.splits)

lemma in_butlast: "c \<in> set d \<Longrightarrow> d \<noteq> [] \<Longrightarrow> last d \<noteq> c \<Longrightarrow> c \<in> set (butlast d)"
  by (metis append_butlast_last_id insert_iff list.simps(15) rotate1.simps(2) set_rotate1)

lemma in_strip_padding:
  assumes "c \<in> set d" "c \<noteq> b64_pad"
  shows "c \<in> set (strip_padding d)"
proof -
  have 1: "d \<noteq> [] \<Longrightarrow> last d = b64_pad \<Longrightarrow> c \<in> set (butlast d)"
    using assms by (auto intro: in_butlast)
  have 2: "d \<noteq> [] \<Longrightarrow> last d = b64_pad \<Longrightarrow> butlast d \<noteq> [] \<Longrightarrow> last (butlast d) = b64_pad
           \<Longrightarrow> c \<in> set (butlast (butlast d))"
    using 1 assms(2) by (auto intro: in_butlast)
  show ?thesis using assms(1) 1 2 by (simp add: strip_padding_def Let_def)
qed

lemma atob_invalid_unit:
  assumes "c \<in> set data" "\<not> is_ascii_whitespace c" "c \<noteq> b64_pad" "b64_index c = None"
  shows "atob data = Inl InvalidCharacterError"
proof -
  let ?d1 = "filter (\<lambda>c. \<not> is_ascii_whitespace c) data"
  let ?d2 = "if length ?d1 mod 4 = 0 then strip_padding ?d1 else ?d1"
  have "c \<in> set ?d1" using assms(1,2) by simp
  then have "c \<in> set ?d2" using assms(3) by (simp add: in_strip_padding)
  then have "b64_indices ?d2 = None" using assms(4) by (rule b64_indices_None)
  then have "forgiving_base64_decode data = None"
    unfolding forgiving_base64_decode_def Let_def by simp
  then show ?thesis by (simp add: atob_def)
qed

lemma decryptKey_atob_raises: "atob enc = Inl err \<Longrightarrow> decryptKey enc = []"
  by (simp add: decryptKey_def)

lemma loadSavedApiKey_absent: "st STORAGE_KEY = None \<Longrightarrow> loadSavedApiKey st = []"
  by (simp add: loadSavedApiKey_def)

lemma loadSavedApiKey_present: "st STORAGE_KEY = Some r \<Longrightarrow> loadSavedApiKey st = decryptKey r"
  by (simp add: loadSavedApiKey_def decryptKey_Nil)

lemma record_of_key: "record_of r STORAGE_KEY = Some r"
  by (simp add: record_of_def)

lemma no_record_key: "no_record STORAGE_KEY = None"
  by (simp add: no_record_def)

lemma bang_invalid:
  "33 \<in> set (js_literal ''!'') \<and> \<not> is_ascii_whitespace 33 \<and> 33 \<noteq> b64_pad \<and> b64_index 33 = None"
  by (simp add: js_literal_def is_ascii_whitespace_def b64_pad_def b64_index_def)

lemma atob_bang: "atob (js_literal ''!'') = Inl InvalidCharacterError"
  using bang_invalid by (blast intro: atob_invalid_unit)

text \<open>
  C3. Silent degradation of the transform: whenever the spread call or the Base64 step of
  \<open>encryptKey\<close> raises, and in particular whenever the key holds a code unit above 255,
  \<open>encryptKey\<close> returns the empty string; whenever \<open>atob\<close> raises, and in particular
  whenever the input holds a code unit that is neither ASCII white space, nor \<open>=\<close>, nor in
  the Base64 alphabet, \<open>decryptKey\<close> returns the empty string.
\<close>

theorem transform_failure_gives_empty:
  "(fromCharCode_spread e (map (\<lambda>(i, c). xor_salt i c) (enumerate 0 key)) = Inl err0
      \<longrightarrow> encryptKey e key = []) \<and>
   (btoa (fromCharCode (map (\<lambda>(i, c). xor_salt i c) (enumerate 0 key))) = Inl err
      \<longrightarrow> encryptKey e key = []) \<and>
   ((\<exists>c\<in>set key. 255 < c)
      \<longrightarrow> btoa (fromCharCode (map (\<lambda>(i, c). xor_salt i c) (enumerate 0 key)))
            = Inl InvalidCharacterError \<and> encryptKey e key = []) \<and>
   (atob enc = Inl err' \<longrightarrow> decryptKey enc = []) \<and>
   ((\<exists>c\<in>set enc. \<not> is_ascii_whitespace c \<and> c \<noteq> b64_pad \<and> b64_index c = None)
      \<longrightarrow> atob enc = Inl InvalidCharacterError \<and> decryptKey enc = [])"
proof (intro conjI impI)
  assume "fromCharCode_spread e (map (\<lambda>(i, c). xor_salt i c) (enumerate 0 key)) = Inl err0"
  then show "encryptKey e key = []" by (simp add: encryptKey_def)
next
  assume "btoa (fromCharCode (map (\<lambda>(i, c). xor_salt i c) (enumerate 0 key))) = Inl err"
  then show "encryptKey e key = []"
    by (simp add: encryptKey_def fromCharCode_spread_def)
next
  assume "\<exists>c\<in>set key. 255 < c"
  then have nb: "\<not> list_all (\<lambda>c. c \<le> 255) key"
    by (auto simp: list_all_iff not_le [symmetric])
  then have "\<not> list_all (\<lambda>c. c \<le> 255) (xor_stream 0 key)" by (simp add: xor_stream_bytes)
  then show "btoa (fromCharCode (map (\<lambda>(i, c). xor_salt i c) (enumerate 0 key)))
               = Inl InvalidCharacterError"
    by (simp add: fromCharCode_xor_salt btoa_def)
  show "encryptKey e key = []" using nb by (rule encryptKey_not_bytes)
next
  assume "atob enc = Inl err'"
  then show "decryptKey enc = []" by (rule decryptKey_atob_raises)
next
  assume "\<exists>c\<in>set enc. \<not> is_ascii_whitespace c \<and> c \<noteq> b64_pad \<and> b64_index c = None"
  then show a: "atob enc = Inl InvalidCharacterError" by (blast intro: atob_invalid_unit)
  then show "decryptKey enc = []" by (rule decryptKey_atob_raises)
qed

theorem transform_failure_gives_empty_witness:
  "encryptKey quiet_env [256] = [] \<and>
   atob (js_literal ''!'') = Inl InvalidCharacterError \<and> decryptKey (js_literal ''!'') = []"
proof -
  have k: "\<exists>c\<in>set [256 :: char16]. 255 < c" by simp
  note t = transform_failure_gives_empty
             [where key = "[256]" and e = quiet_env and enc = "js_literal ''!''"
                and err' = InvalidCharacterError]
  have "encryptKey quiet_env [256] = []" using t k by blast
  moreover have "decryptKey (js_literal ''!'') = []" using t atob_bang by blast
  ultimately show ?thesis using atob_bang by blast
qed

text \<open>
  C4. The loader: with no record under the fixed key \<open>loadSavedApiKey\<close> returns the empty
  string, and with a record \<open>r\<close> it returns \<open>decryptKey r\<close> (for the empty record both
  sides are the empty string).
\<close>

theorem loadSavedApiKey_semantics:
  "(st STORAGE_KEY = None \<longrightarrow> loadSavedApiKey st = []) \<and>
   (st STORAGE_KEY = Some r \<longrightarrow> loadSavedApiKey st = decryptKey r)"
  by (simp add: loadSavedApiKey_absent loadSavedApiKey_present)

theorem loadSavedApiKey_semantics_witness:
  "no_record STORAGE_KEY = None \<and> loadSavedApiKey no_record = [] \<and>
   record_of (js_literal ''BgE='') STORAGE_KEY = Some (js_literal ''BgE='') \<and>
   loadSavedApiKey (record_of (js_literal ''BgE='')) = decryptKey (js_literal ''BgE='')"
  using loadSavedApiKey_semantics [of no_record]
        loadSavedApiKey_semantics [of "record_of (js_literal ''BgE='')" "js_literal ''BgE=''"]
  by (simp add: no_record_key record_of_key)

text \<open>
  C10. \<open>loadSavedApiKey\<close> returns the empty string when no record is stored, when the
  stored record is the empty string, and when the stored record makes \<open>atob\<close> raise: the
  three results are equal, so the caller cannot tell the situations apart.
\<close>

theorem loadSavedApiKey_conflates:
  assumes "st1 STORAGE_KEY = None" "st2 STORAGE_KEY = Some []"
    and "st3 STORAGE_KEY = Some r" "atob r = Inl err"
  shows "loadSavedApiKey st1 = [] \<and> loadSavedApiKey st2 = [] \<and> loadSavedApiKey st3 = [] \<and>
         loadSavedApiKey st1 = loadSavedApiKey st2 \<and> loadSavedApiKey st2 = loadSavedApiKey st3"
  using assms by (simp add: loadSavedApiKey_def decryptKey_atob_raises)

theorem loadSavedApiKey_conflates_witness:
  "loadSavedApiKey no_record = [] \<and> loadSavedApiKey (record_of []) = [] \<and>
   loadSavedApiKey (record_of (js_literal ''!'')) = []"
  using loadSavedApiKey_conflates
          [of no_record "record_of []" "record_of (js_literal ''!'')" "js_literal ''!''"
              InvalidCharacterError]
  by (simp add: no_record_key record_of_key atob_bang)

section \<open>The dialog: guards of the handlers\<close>

lemma trim_eq_Nil: "trim s = [] \<longleftrightarrow> list_all is_js_whitespace s"
proof
  assume "trim s = []"
  then have a: "\<forall>x\<in>set (dropWhile is_js_whitespace s). is_js_whitespace x"
    by (simp add: trim_def dropWhile_eq_Nil_conv)
  have "dropWhile is_js_whitespace s = []"
  proof (rule ccontr)
    assume n: "dropWhile is_js_whitespace s \<noteq> []"
    then have "\<not> is_js_whitespace (hd (dropWhile is_js_whitespace s))" by (rule hd_dropWhile)
    moreover have "hd (dropWhile is_js_whitespace s) \<in> set (dropWhile is_js_whitespace s)"
      using n by simp
    ultimately show False using a by blast
  qed
  then show "list_all is_js_whitespace s" by (simp add: dropWhile_eq_Nil_conv list_all_iff)
next
  assume "list_all is_js_whitespace s"
  then have d: "dropWhile is_js_whitespace s = []"
    by (simp add: dropWhile_eq_Nil_conv list_all_iff)
  show "trim s = []" by (simp only: trim_def d rev.simps dropWhile.simps)
qed

lemma handleTest_start_blank:
  "list_all is_js_whitespace (apiKey d) \<Longrightarrow>
   handleTest_start d = Returned (d\<lparr>status := Error, message := EnterApiKey\<rparr>)"
  by (simp add: handleTest_start_def trim_eq_Nil)

lemma handleTest_start_key:
  "\<not> list_all is_js_whitespace (apiKey d) \<Longrightarrow>
   handleTest_start d =
     Awaiting (d\<lparr>status := Testing, message := TestingConnection,
                 calls := calls d @ [TestConnection (apiKey d)]\<rparr>)"
  by (simp add: handleTest_start_def trim_eq_Nil)

lemma handleSave_blank:
  "list_all is_js_whitespace (apiKey d) \<Longrightarrow>
   handleSave e d = d\<lparr>status := Error, message := NothingToSave\<rparr>"
  by (simp add: handleSave_def trim_eq_Nil)

lemma handleSave_key:
  assumes "\<not> list_all is_js_whitespace (apiKey d)"
    and "\<not> setItem_raises e STORAGE_KEY (encryptKey e (apiKey d))"
    and "\<not> updateApiKey_raises e (apiKey d)"
  shows "handleSave e d =
           d\<lparr>calls := calls d @ [SetItem STORAGE_KEY (encryptKey e (apiKey d)),
                                  UpdateApiKey (apiKey d)],
             storage := (storage d)(STORAGE_KEY \<mapsto> encryptKey e (apiKey d)),
             status := Success, message := SavedEncrypted,
             timers := timers d @ [(1500, InvokeOnClose)]\<rparr>"
  using assms by (simp add: handleSave_def trim_eq_Nil Let_def)

lemma apiKey_typed: "apiKey (typed k) = k"
  by (simp add: typed_def input_onChange_def)

lemma space_blank: "list_all is_js_whitespace (js_literal '' '')"
  by (simp add: js_literal_def is_js_whitespace_def)

lemma space_nonempty: "js_literal '' '' \<noteq> []"
  by (simp add: js_literal_def)

text \<open>
  C5. Empty-input guard: when the input is empty or consists of white space only, the
  Test handler returns at its guard without calling \<open>testConnection\<close>, the Save handler
  writes nothing to the storage and does not call \<open>updateApiKey\<close>, and each sets the status
  to \<open>error\<close> with its validation message; nothing else of the state changes.
\<close>

theorem blank_input_guard:
  assumes "list_all is_js_whitespace (apiKey d)"
  shows "handleTest_start d = Returned (d\<lparr>status := Error, message := EnterApiKey\<rparr>) \<and>
         handleTest verifier d = d\<lparr>status := Error, message := EnterApiKey\<rparr> \<and>
         calls (handleTest verifier d) = calls d \<and>
         handleSave e d = d\<lparr>status := Error, message := NothingToSave\<rparr> \<and>
         calls (handleSave e d) = calls d \<and>
         storage (handleSave e d) = storage d \<and>
         timers (handleSave e d) = timers d"
  using assms by (simp add: handleTest_def handleTest_start_blank handleSave_blank)

theorem blank_input_guard_witness:
  "list_all is_js_whitespace (apiKey (typed (js_literal '' ''))) \<and>
   status (handleTest accepting_verifier (typed (js_literal '' ''))) = Error \<and>
   calls (handleTest accepting_verifier (typed (js_literal '' ''))) =
     calls (typed (js_literal '' '')) \<and>
   status (handleSave quiet_env (typed (js_literal '' ''))) = Error \<and>
   storage (handleSave quiet_env (typed (js_literal '' ''))) = storage (typed (js_literal '' ''))"
proof -
  have h: "list_all is_js_whitespace (apiKey (typed (js_literal '' '')))"
    by (simp add: apiKey_typed space_blank)
  show ?thesis using h blank_input_guard [OF h, of accepting_verifier quiet_env] by simp
qed

section \<open>The dialog: Test\<close>

lemma key_AIza: "\<not> list_all is_js_whitespace (js_literal ''AIza'')"
  by (simp add: js_literal_def is_js_whitespace_def)

text \<open>
  C6 as stated fails: a single space is a non-empty input, yet Test returns at the guard
  with status \<open>error\<close> and \<open>testConnection\<close> is not called, even with a verifier that would
  resolve to \<open>true\<close>.
\<close>

theorem handleTest_nonempty_counterexample:
  "apiKey (typed (js_literal '' '')) \<noteq> [] \<and>
   handleTest_start (typed (js_literal '' '')) =
     Returned ((typed (js_literal '' ''))\<lparr>status := Error, message := EnterApiKey\<rparr>) \<and>
   status (handleTest accepting_verifier (typed (js_literal '' ''))) = Error \<and>
   calls (handleTest accepting_verifier (typed (js_literal '' ''))) = []"
proof -
  have h: "list_all is_js_whitespace (apiKey (typed (js_literal '' '')))"
    by (simp add: apiKey_typed space_blank)
  have c: "calls (typed (js_literal '' '')) = []"
    by (simp add: typed_def input_onChange_def mount_def dialog_init_def Let_def)
  show ?thesis
    using c by (simp add: handleTest_def handleTest_start_blank [OF h] apiKey_typed space_nonempty)
qed

text \<open>
  C6, amended. For every input that is not empty or white space only, Test sets the status
  to \<open>testing\<close> and calls \<open>testConnection\<close> with the input exactly once before it suspends;
  when the promise resolves to \<open>true\<close> the status becomes \<open>success\<close>, when it resolves to
  \<open>false\<close> the status becomes \<open>error\<close>, and resuming makes no further call.
\<close>

theorem handleTest_transitions:
  assumes "\<not> list_all is_js_whitespace (apiKey d)"
  shows "handleTest_start d =
           Awaiting (d\<lparr>status := Testing, message := TestingConnection,
                       calls := calls d @ [TestConnection (apiKey d)]\<rparr>) \<and>
         status (handleTest_resume (Resolved True)
                   (d\<lparr>status := Testing, message := TestingConnection,
                      calls := calls d @ [TestConnection (apiKey d)]\<rparr>)) = Success \<and>
         status (handleTest_resume (Resolved False)
                   (d\<lparr>status := Testing, message := TestingConnection,
                      calls := calls d @ [TestConnection (apiKey d)]\<rparr>)) = Error \<and>
         calls (handleTest_resume r
                   (d\<lparr>status := Testing, message := TestingConnection,
                      calls := calls d @ [TestConnection (apiKey d)]\<rparr>))
           = calls d @ [TestConnection (apiKey d)] \<and>
         (verifier (apiKey d) = Resolved True \<longrightarrow> status (handleTest verifier d) = Success) \<and>
         (verifier (apiKey d) = Resolved False \<longrightarrow> status (handleTest verifier d) = Error) \<and>
         calls (handleTest verifier d) = calls d @ [TestConnection (apiKey d)]"
  using assms
  by (simp add: handleTest_def handleTest_start_key handleTest_resume_def split: settled.splits)

theorem handleTest_transitions_witness:
  "\<not> list_all is_js_whitespace (apiKey (typed (js_literal ''AIza''))) \<and>
   status (handleTest accepting_verifier (typed (js_literal ''AIza''))) = Success \<and>
   status (handleTest refusing_verifier (typed (js_literal ''AIza''))) = Error \<and>
   calls (handleTest accepting_verifier (typed (js_literal ''AIza''))) =
     calls (typed (js_literal ''AIza'')) @ [TestConnection (js_literal ''AIza'')]"
proof -
  have h: "\<not> list_all is_js_whitespace (apiKey (typed (js_literal ''AIza'')))"
    by (simp add: apiKey_typed key_AIza)
  show ?thesis
    using h handleTest_transitions [OF h, of _ accepting_verifier]
            handleTest_transitions [OF h, of _ refusing_verifier]
    by (simp add: accepting_verifier_def refusing_verifier_def apiKey_typed)
qed

section \<open>The dialog: Save\<close>

lemma fire_timer_last:
  "fire_timer (length ts) (d\<lparr>timers := ts @ [(n, InvokeOnClose)]\<rparr>) =
     d\<lparr>timers := ts, calls := calls d @ [OnClose]\<rparr>"
  by (simp add: fire_timer_def run_callback_def nth_append)

lemma typed_fields:
  "apiKey (typed k) = k" "calls (typed k) = []" "timers (typed k) = []"
  "storage (typed k) = no_record" "status (typed k) = Idle"
  by (simp_all add: typed_def input_onChange_def mount_def dialog_init_def Let_def)

text \<open>
  C7 as stated fails: a single space is a non-empty input, yet Save returns at the guard:
  nothing is stored, \<open>updateApiKey\<close> is not called, the status is \<open>error\<close> and no timer
  for \<open>onClose\<close> is set.
\<close>

theorem handleSave_nonempty_counterexample:
  "apiKey (typed (js_literal '' '')) \<noteq> [] \<and>
   status (handleSave quiet_env (typed (js_literal '' ''))) = Error \<and>
   storage (handleSave quiet_env (typed (js_literal '' ''))) STORAGE_KEY = None \<and>
   calls (handleSave quiet_env (typed (js_literal '' ''))) = [] \<and>
   timers (handleSave quiet_env (typed (js_literal '' ''))) = []"
proof -
  have h: "list_all is_js_whitespace (apiKey (typed (js_literal '' '')))"
    by (simp add: typed_fields space_blank)
  show ?thesis
    by (simp add: handleSave_blank [OF h] typed_fields space_nonempty no_record_key)
qed

text \<open>
  C7, amended. For every input that is not empty or white space only, and when neither
  \<open>localStorage.setItem\<close> nor \<open>updateApiKey\<close> throws, Save stores the encrypted key under
  the fixed storage key, then calls \<open>updateApiKey\<close> with the plain key, sets the status to
  \<open>success\<close>, and leaves one new timer with delay 1500 ms; when that timer runs, \<open>onClose\<close>
  is called once and the timer is gone.
\<close>

theorem handleSave_then_close:
  assumes "\<not> list_all is_js_whitespace (apiKey d)"
    and "\<not> setItem_raises e STORAGE_KEY (encryptKey e (apiKey d))"
    and "\<not> updateApiKey_raises e (apiKey d)"
  shows "storage (handleSave e d) = (storage d)(STORAGE_KEY \<mapsto> encryptKey e (apiKey d)) \<and>
         calls (handleSave e d) =
           calls d @ [SetItem STORAGE_KEY (encryptKey e (apiKey d)), UpdateApiKey (apiKey d)] \<and>
         status (handleSave e d) = Success \<and>
         message (handleSave e d) = SavedEncrypted \<and>
         timers (handleSave e d) = timers d @ [(1500, InvokeOnClose)] \<and>
         calls (fire_timer (length (timers d)) (handleSave e d)) =
           calls (handleSave e d) @ [OnClose] \<and>
         timers (fire_timer (length (timers d)) (handleSave e d)) = timers d \<and>
         count_list (calls (fire_timer (length (timers d)) (handleSave e d))) OnClose =
           Suc (count_list (calls d) OnClose)"
proof -
  let ?s = "d\<lparr>calls := calls d @ [SetItem STORAGE_KEY (encryptKey e (apiKey d)),
                                     UpdateApiKey (apiKey d)],
                storage := (storage d)(STORAGE_KEY \<mapsto> encryptKey e (apiKey d)),
                status := Success, message := SavedEncrypted\<rparr>"
  have s: "handleSave e d = ?s\<lparr>timers := timers d @ [(1500, InvokeOnClose)]\<rparr>"
    using assms by (simp add: handleSave_key)
  have f: "fire_timer (length (timers d)) (handleSave e d) =
             ?s\<lparr>timers := timers d, calls := calls ?s @ [OnClose]\<rparr>"
    unfolding s by (rule fire_timer_last)
  show ?thesis unfolding f unfolding s by simp
qed

theorem handleSave_then_close_witness:
  "\<not> list_all is_js_whitespace (apiKey (typed (js_literal ''AIza''))) \<and>
   status (handleSave quiet_env (typed (js_literal ''AIza''))) = Success \<and>
   timers (handleSave quiet_env (typed (js_literal ''AIza''))) = [(1500, InvokeOnClose)] \<and>
   calls (fire_timer 0 (handleSave quiet_env (typed (js_literal ''AIza'')))) =
     [SetItem STORAGE_KEY (encryptKey quiet_env (js_literal ''AIza'')), UpdateApiKey (js_literal ''AIza''),
      OnClose]"
proof -
  have h: "\<not> list_all is_js_whitespace (apiKey (typed (js_literal ''AIza'')))"
    by (simp add: typed_fields key_AIza)
  show ?thesis
    using h handleSave_then_close [OF h quiet_env_simps(1) quiet_env_simps(2)]
    by (simp add: typed_fields)
qed

section \<open>The dialog: the stored record after Save\<close>

lemma handleSave_storage:
  assumes "\<not> list_all is_js_whitespace (apiKey d)"
    and "\<not> setItem_raises e STORAGE_KEY (encryptKey e (apiKey d))"
  shows "storage (handleSave e d) = (storage d)(STORAGE_KEY \<mapsto> encryptKey e (apiKey d))"
  using assms by (simp add: handleSave_def trim_eq_Nil Let_def)

lemma handleSave_load_bytes:
  assumes "\<not> list_all is_js_whitespace (apiKey d)"
    and "list_all (\<lambda>c. c \<le> 255) (apiKey d)"
    and "\<not> spread_raises e (length (apiKey d))"
    and "\<not> setItem_raises e STORAGE_KEY (encryptKey e (apiKey d))"
  shows "storage (handleSave e d) STORAGE_KEY = Some (encryptKey e (apiKey d))"
    and "loadSavedApiKey (storage (handleSave e d)) = apiKey d"
proof -
  show r: "storage (handleSave e d) STORAGE_KEY = Some (encryptKey e (apiKey d))"
    by (simp add: handleSave_storage [OF assms(1,4)])
  have "loadSavedApiKey (storage (handleSave e d)) = decryptKey (encryptKey e (apiKey d))"
    using r by (rule loadSavedApiKey_present)
  then show "loadSavedApiKey (storage (handleSave e d)) = apiKey d"
    by (simp add: decrypt_encrypt_bytes [OF assms(2,3)])
qed

lemma dialog_step_frame:
  "saved_by e d ev = None \<Longrightarrow> storage (dialog_step e d ev) = storage d"
proof (cases ev)
  case (TypeInput v)
  then show ?thesis by (simp add: input_onChange_def)
next
  case ClickTest
  then show ?thesis by (simp add: handleTest_start_def)
next
  case (TestSettled r)
  then show ?thesis by (simp add: handleTest_resume_def split: settled.splits)
next
  case ClickSave
  assume "saved_by e d ev = None"
  then show ?thesis using ClickSave
    by (auto simp: handleSave_def Let_def split: if_splits)
next
  case (TimerFired i)
  then show ?thesis by (simp add: fire_timer_def run_callback_def split: callback.splits)
next
  case ClickClose
  then show ?thesis by simp
next
  case ToggleShowKey
  then show ?thesis by simp
qed

lemma dialog_step_saved:
  "saved_by e d ev = Some p \<Longrightarrow>
   storage (dialog_step e d ev) STORAGE_KEY = Some (encryptKey e p)"
  by (cases ev) (simp_all add: handleSave_def Let_def split: if_splits)

lemma dialog_run_storage:
  "(last_saved e d evs = None \<longrightarrow> storage (dialog_run e d evs) = storage d) \<and>
   (last_saved e d evs = Some p \<longrightarrow>
      storage (dialog_run e d evs) STORAGE_KEY = Some (encryptKey e p))"
proof (induction evs arbitrary: d)
  case Nil
  then show ?case by simp
next
  case (Cons ev evs)
  note IH = Cons.IH [of "dialog_step e d ev"]
  show ?case
  proof (cases "last_saved e (dialog_step e d ev) evs")
    case None
    then have l: "last_saved e d (ev # evs) = saved_by e d ev" by simp
    have s: "storage (dialog_run e d (ev # evs)) = storage (dialog_step e d ev)"
      using IH None by simp
    show ?thesis unfolding l s
      by (auto simp: dialog_step_frame dialog_step_saved)
  next
    case (Some q)
    then have l: "last_saved e d (ev # evs) = Some q" by simp
    show ?thesis using IH Some by (simp add: l)
  qed
qed

lemma korean_key:
  "\<not> is_js_whitespace 53412" "\<not> list_all is_js_whitespace [53412]"
  "\<not> list_all (\<lambda>c. c \<le> 255) [53412 :: char16]"
  by (simp_all add: is_js_whitespace_def)

lemma key_AIza_bytes: "list_all (\<lambda>c. c \<le> 255) (js_literal ''AIza'')"
  by (simp add: js_literal_def)

lemma key_AIza_length: "\<not> spread_raises quiet_env (length (js_literal ''AIza''))"
  by (simp add: js_literal_def quiet_env_simps)

text \<open>
  C2 as stated fails: the credential consisting of the code unit U+D0A4 (53412, a Hangul
  syllable) is accepted by Save, which reports \<open>success\<close>, but the record written is the
  empty string and the loader returns the empty string, not the credential.
\<close>

theorem save_load_counterexample:
  "status (handleSave quiet_env (typed [53412])) = Success \<and>
   storage (handleSave quiet_env (typed [53412])) STORAGE_KEY = Some [] \<and>
   loadSavedApiKey (storage (handleSave quiet_env (typed [53412]))) = [] \<and>
   loadSavedApiKey (storage (handleSave quiet_env (typed [53412]))) \<noteq> apiKey (typed [53412])"
proof -
  have k: "\<not> list_all is_js_whitespace (apiKey (typed [53412]))"
    by (simp add: typed_fields korean_key)
  have e: "encryptKey quiet_env (apiKey (typed [53412])) = []"
    by (simp add: typed_fields encryptKey_not_bytes korean_key)
  have s: "handleSave quiet_env (typed [53412]) =
             (typed [53412])\<lparr>calls := calls (typed [53412]) @
                                 [SetItem STORAGE_KEY [], UpdateApiKey (apiKey (typed [53412]))],
                               storage := (storage (typed [53412]))(STORAGE_KEY \<mapsto> []),
                               status := Success, message := SavedEncrypted,
                               timers := timers (typed [53412]) @ [(1500, InvokeOnClose)]\<rparr>"
    using handleSave_key [OF k quiet_env_simps(1) quiet_env_simps(2)] by (simp add: e)
  show ?thesis unfolding s by (simp add: loadSavedApiKey_def typed_fields)
qed

text \<open>
  C2, amended. In every run of the dialog's handlers from any state: when the credential
  \<open>b\<close> most recently saved (by a Save that passed its guard and whose \<open>setItem\<close> returned)
  has all its code units in the byte range (0 to 255) and a length the engine accepts as a
  number of arguments, the record under the fixed storage key is \<open>encryptKey b\<close> and the
  loader returns exactly \<open>b\<close>, whatever handlers ran since; when no Save of the run has
  saved, the storage is as it was. In particular Save of such a \<open>b\<close> that is not empty or
  white space only leaves the loader returning \<open>b\<close>, also after an earlier Save of any
  credential \<open>a\<close>, and whether or not \<open>updateApiKey\<close> throws.
\<close>

theorem save_then_load:
  assumes "list_all (\<lambda>c. c \<le> 255) b" and "\<not> spread_raises e (length b)"
  shows "(last_saved e d evs = Some b \<longrightarrow>
            storage (dialog_run e d evs) STORAGE_KEY = Some (encryptKey e b) \<and>
            loadSavedApiKey (storage (dialog_run e d evs)) = b) \<and>
         (last_saved e d evs = None \<longrightarrow> storage (dialog_run e d evs) = storage d) \<and>
         (\<not> list_all is_js_whitespace b \<and> \<not> setItem_raises e STORAGE_KEY (encryptKey e b) \<longrightarrow>
            storage (handleSave e (input_onChange b d)) STORAGE_KEY = Some (encryptKey e b) \<and>
            loadSavedApiKey (storage (handleSave e (input_onChange b d))) = b \<and>
            loadSavedApiKey
              (storage (handleSave e (input_onChange b (handleSave e (input_onChange a d))))) = b)"
proof (intro conjI impI)
  assume l: "last_saved e d evs = Some b"
  then show r: "storage (dialog_run e d evs) STORAGE_KEY = Some (encryptKey e b)"
    using dialog_run_storage [of e d evs b] by blast
  have "loadSavedApiKey (storage (dialog_run e d evs)) = decryptKey (encryptKey e b)"
    using r by (rule loadSavedApiKey_present)
  then show "loadSavedApiKey (storage (dialog_run e d evs)) = b"
    by (simp add: decrypt_encrypt_bytes [OF assms])
next
  assume "last_saved e d evs = None"
  then show "storage (dialog_run e d evs) = storage d"
    using dialog_run_storage [of e d evs b] by blast
next
  assume h: "\<not> list_all is_js_whitespace b \<and> \<not> setItem_raises e STORAGE_KEY (encryptKey e b)"
  have k: "\<And>d0. apiKey (input_onChange b d0) = b" by (simp add: input_onChange_def)
  show "storage (handleSave e (input_onChange b d)) STORAGE_KEY = Some (encryptKey e b)"
    using handleSave_load_bytes(1) [of "input_onChange b d" e] assms h by (simp add: k)
  show "loadSavedApiKey (storage (handleSave e (input_onChange b d))) = b"
    using handleSave_load_bytes(2) [of "input_onChange b d" e] assms h by (simp add: k)
  show "loadSavedApiKey
          (storage (handleSave e (input_onChange b (handleSave e (input_onChange a d))))) = b"
    using handleSave_load_bytes(2) [of "input_onChange b (handleSave e (input_onChange a d))" e]
          assms h
    by (simp add: k)
qed

lemma example_run_last_saved:
  "last_saved quiet_env (typed [])
     [TypeInput [53412], ClickSave, TypeInput (js_literal ''AIza''), ClickSave,
      ClickTest, TestSettled (Resolved False), TypeInput [32], ClickSave, ToggleShowKey]
   = Some (js_literal ''AIza'')"
  by (simp add: buttons_disabled_def input_onChange_def handleSave_def handleTest_start_def
                handleTest_resume_def trim_eq_Nil quiet_env_simps Let_def js_literal_def
                is_js_whitespace_def)

theorem save_then_load_witness:
  "list_all (\<lambda>c. c \<le> 255) (js_literal ''AIza'') \<and>
   \<not> spread_raises quiet_env (length (js_literal ''AIza'')) \<and>
   loadSavedApiKey
     (storage
       (dialog_run quiet_env (typed [])
          [TypeInput [53412], ClickSave, TypeInput (js_literal ''AIza''), ClickSave,
           ClickTest, TestSettled (Resolved False), TypeInput [32], ClickSave, ToggleShowKey]))
     = js_literal ''AIza'' \<and>
   loadSavedApiKey (storage (handleSave quiet_env (input_onChange (js_literal ''AIza'')
     (handleSave quiet_env (input_onChange [53412] (typed [])))))) = js_literal ''AIza''"
proof -
  note t = save_then_load [OF key_AIza_bytes key_AIza_length, where a = "[53412]" and d = "typed []"
             and evs = "[TypeInput [53412], ClickSave, TypeInput (js_literal ''AIza''), ClickSave,
                         ClickTest, TestSettled (Resolved False), TypeInput [32], ClickSave,
                         ToggleShowKey]"]
  show ?thesis
    using t example_run_last_saved key_AIza key_AIza_bytes key_AIza_length quiet_env_simps(1)
    by blast
qed



section \<open>The toolbar: the row-count field\<close>











end
